theory Spec2Isabelle
  imports Complex_Main
begin

section \<open>Python primitives used by gpustat\<close>

text \<open>
  Exceptions are values. \<open>KeyError\<close> carries the missing key; \<open>UnboundLocalError\<close> is what
  Python raises when a local variable is read before any assignment to it;
  \<open>CalledProcessError\<close> is raised by \<open>subprocess.check_output\<close>; \<open>FormatError\<close> stands for the
  \<open>ValueError\<close>/\<open>TypeError\<close> of a malformed \<open>%\<close> format string.
\<close>

datatype error =
    KeyError string
  | ValueError
  | UnboundLocalError
  | CalledProcessError
  | FormatError

text \<open>Sequencing of two computations that may raise: the first exception wins.\<close>

fun and_then :: "error + 'a \<Rightarrow> ('a \<Rightarrow> error + 'b) \<Rightarrow> error + 'b" where
  "and_then (Inl e) f = Inl e"
| "and_then (Inr v) f = f v"

text \<open>
  A Python \<open>dict\<close> whose keys range over a fixed set of column names is a record of optional
  fields; \<open>d[key]\<close> raises \<open>KeyError\<close> when the field is absent.
\<close>

definition getitem :: "string \<Rightarrow> 'a option \<Rightarrow> error + 'a" where
  "getitem key field = (case field of None \<Rightarrow> Inl (KeyError key) | Some v \<Rightarrow> Inr v)"

text \<open>
  \<open>str.isspace\<close> on the code points below 256, used by \<open>str.strip()\<close> and \<open>str.split()\<close>.
\<close>

definition is_space :: "char \<Rightarrow> bool" where
  "is_space c = (of_char c \<in> {9, 10, 11, 12, 13, 28, 29, 30, 31, 32, 133, 160 :: nat})"

definition strip :: "string \<Rightarrow> string" where
  "strip s = rev (dropWhile is_space (rev (dropWhile is_space s)))"

definition is_digit :: "char \<Rightarrow> bool" where
  "is_digit c = (48 \<le> (of_char c :: nat) \<and> (of_char c :: nat) \<le> 57)"

fun digits_value :: "nat \<Rightarrow> string \<Rightarrow> nat" where
  "digits_value acc [] = acc"
| "digits_value acc (c # cs) = digits_value (10 * acc + (of_char c - 48)) cs"

definition py_nat :: "string \<Rightarrow> nat option" where
  "py_nat s = (if s \<noteq> [] \<and> list_all is_digit s then Some (digits_value 0 s) else None)"

text \<open>
  \<open>int(s)\<close> for a string: surrounding whitespace is ignored, one sign is allowed, then one
  or more ASCII decimal digits; anything else is \<open>None\<close> (Python's \<open>ValueError\<close>). Digit
  grouping with underscores and non-ASCII digits are outside this fragment.
\<close>

definition py_int :: "string \<Rightarrow> int option" where
  "py_int s =
     (case strip s of
        [] \<Rightarrow> None
      | c # cs \<Rightarrow>
          if c = CHR ''-'' then map_option (\<lambda>n. - int n) (py_nat cs)
          else if c = CHR ''+'' then map_option int (py_nat cs)
          else map_option int (py_nat (c # cs)))"

definition int_of :: "string \<Rightarrow> error + int" where
  "int_of s = (case py_int s of None \<Rightarrow> Inl ValueError | Some n \<Rightarrow> Inr n)"

text \<open>
  \<open>format(s, "16")\<close> and \<open>format(s, ">3")\<close> on a string: pad with spaces up to the width, on
  the right (the default for strings) or on the left; a longer string is never truncated.
\<close>

definition ljust :: "nat \<Rightarrow> string \<Rightarrow> string" where
  "ljust w s = s @ replicate (w - length s) (CHR '' '')"

definition rjust :: "nat \<Rightarrow> string \<Rightarrow> string" where
  "rjust w s = replicate (w - length s) (CHR '' '') @ s"

section \<open>ANSIColors\<close>

definition ESC :: char where "ESC = CHR 0x1B"

definition RESET :: string where "RESET = ESC # ''[0m''"
definition WHITE :: string where "WHITE = ESC # ''[1m''"
definition RED :: string where "RED = ESC # ''[0;31m''"
definition GREEN :: string where "GREEN = ESC # ''[0;32m''"
definition YELLOW :: string where "YELLOW = ESC # ''[0;33m''"
definition BLUE :: string where "BLUE = ESC # ''[0;34m''"
definition MAGENTA :: string where "MAGENTA = ESC # ''[0;35m''"
definition CYAN :: string where "CYAN = ESC # ''[0;36m''"
definition GRAY :: string where "GRAY = ESC # ''[1;30m''"
definition BOLD_RED :: string where "BOLD_RED = ESC # ''[1;31m''"
definition BOLD_GREEN :: string where "BOLD_GREEN = ESC # ''[1;32m''"
definition BOLD_YELLOW :: string where "BOLD_YELLOW = ESC # ''[1;33m''"

section \<open>GPUStat\<close>

text \<open>
  \<open>GPUStat.entry\<close> is the dict built from the columns of one \<open>nvidia-smi\<close> row; a process
  entry is the dict built from one compute-app row, later extended by \<open>user\<close> and \<open>comm\<close>.
  All values are the strings of the command output.
\<close>

record gpu_entry =
  index :: "string option"
  uuid :: "string option"
  name :: "string option"
  temperature_gpu :: "string option"
  utilization_gpu :: "string option"
  memory_used :: "string option"
  memory_total :: "string option"

record process_entry =
  gpu_uuid :: "string option"
  pid :: "string option"
  used_memory :: "string option"
  user :: "string option"
  comm :: "string option"

record GPUStat =
  entry :: gpu_entry
  processes :: "process_entry list"

text \<open>The local dict \<open>colors\<close> of \<open>print_to\<close>.\<close>

record colors =
  C0 :: string
  C1 :: string
  CName :: string
  CTemp :: string
  CMemU :: string
  CMemT :: string
  CMemP :: string
  CUser :: string
  CUtil :: string

text \<open>
  The colour settings of \<open>print_to\<close>: both integer conversions run (and may raise) whether or
  not colours are wanted; without colours every entry is then replaced by the empty string.
\<close>

definition color_settings :: "gpu_entry \<Rightarrow> bool \<Rightarrow> error + colors" where
  "color_settings e with_colors =
     and_then (getitem ''temperature.gpu'' (temperature_gpu e)) (\<lambda>ts.
     and_then (int_of ts) (\<lambda>t.
     and_then (getitem ''utilization.gpu'' (utilization_gpu e)) (\<lambda>us.
     and_then (int_of us) (\<lambda>u.
       Inr (if \<not> with_colors
            then \<lparr>C0 = [], C1 = [], CName = [], CTemp = [], CMemU = [], CMemT = [],
                  CMemP = [], CUser = [], CUtil = []\<rparr>
            else \<lparr>C0 = RESET, C1 = CYAN, CName = BLUE,
                  CTemp = (if t < 50 then RED else BOLD_RED),
                  CMemU = BOLD_YELLOW, CMemT = YELLOW, CMemP = YELLOW, CUser = GRAY,
                  CUtil = (if u < 30 then GREEN else BOLD_GREEN)\<rparr>)))))"

text \<open>The nested function \<open>process_repr\<close> of \<open>print_to\<close>; \<open>r1\<close>, \<open>r2\<close>, \<open>r3\<close> are the successive
  values of its local \<open>r\<close>.\<close>

definition process_repr ::
  "colors \<Rightarrow> bool \<Rightarrow> bool \<Rightarrow> bool \<Rightarrow> process_entry \<Rightarrow> error + string" where
  "process_repr cs show_cmd show_user show_pid p =
     and_then (if \<not> show_cmd \<or> show_user
               then and_then (getitem ''user'' (user p)) (\<lambda>u. Inr (CUser cs @ u @ C0 cs))
               else Inr []) (\<lambda>r1.
     and_then (if show_cmd
               then and_then (getitem ''pid'' (pid p)) (\<lambda>pd.
                      Inr ((if r1 \<noteq> [] then r1 @ '':'' else r1) @
                           C1 cs @ (case comm p of Some c \<Rightarrow> c | None \<Rightarrow> pd) @ C0 cs))
               else Inr r1) (\<lambda>r2.
     and_then (if show_pid
               then and_then (getitem ''pid'' (pid p)) (\<lambda>pd. Inr (r2 @ ''/'' @ pd))
               else Inr r2) (\<lambda>r3.
     and_then (getitem ''used_memory'' (used_memory p)) (\<lambda>m.
       Inr (r3 @ ''('' @ CMemP cs @ m @ ''M'' @ C0 cs @ '')'')))))"

text \<open>The loop \<open>for p in self.processes: reps += ' ' + process_repr(p)\<close>.\<close>

fun append_processes ::
  "colors \<Rightarrow> bool \<Rightarrow> bool \<Rightarrow> bool \<Rightarrow> string \<Rightarrow> process_entry list \<Rightarrow> error + string" where
  "append_processes cs show_cmd show_user show_pid reps [] = Inr reps"
| "append_processes cs show_cmd show_user show_pid reps (p # ps) =
     and_then (process_repr cs show_cmd show_user show_pid p) (\<lambda>r.
       append_processes cs show_cmd show_user show_pid (reps @ '' '' @ r) ps)"

text \<open>
  \<open>GPUStat.print_to\<close>: the value is the one string written to \<open>fp\<close>. The template is first
  filled with the colours (\<open>%\<close>), then with the entry (\<open>str.format\<close>, fields read from left to
  right), then \<open>" |"\<close> and the process tokens are appended.
\<close>

definition print_to ::
  "GPUStat \<Rightarrow> bool \<Rightarrow> bool \<Rightarrow> bool \<Rightarrow> bool \<Rightarrow> nat \<Rightarrow> error + string" where
  "print_to self with_colors show_cmd show_user show_pid gpuname_width =
     and_then (color_settings (entry self) with_colors) (\<lambda>cs.
     and_then (getitem ''index'' (index (entry self))) (\<lambda>e_index.
     and_then (getitem ''name'' (name (entry self))) (\<lambda>e_name.
     and_then (getitem ''temperature.gpu'' (temperature_gpu (entry self))) (\<lambda>e_temp.
     and_then (getitem ''utilization.gpu'' (utilization_gpu (entry self))) (\<lambda>e_util.
     and_then (getitem ''memory.used'' (memory_used (entry self))) (\<lambda>e_used.
     and_then (getitem ''memory.total'' (memory_total (entry self))) (\<lambda>e_total.
       append_processes cs show_cmd show_user show_pid
         (C1 cs @ ''['' @ e_index @ '']'' @ C0 cs @ '' '' @
          CName cs @ ljust gpuname_width e_name @ C0 cs @ '' |'' @
          CTemp cs @ rjust 3 e_temp @ [CHR 0x27] @ ''C'' @ C0 cs @ '', '' @
          CUtil cs @ rjust 3 e_util @ '' %'' @ C0 cs @ '' | '' @
          C1 cs @ CMemU cs @ rjust 5 e_used @ C0 cs @ '' / '' @
          CMemT cs @ rjust 5 e_total @ C0 cs @ '' MB'' @
          '' |'')
         (processes self))))))))"

section \<open>GPUStatCollection\<close>

subsection \<open>Text helpers of the queries\<close>

text \<open>\<open>s.split(sep)\<close> with a one-character separator: empty pieces are kept.\<close>

fun split_on :: "char \<Rightarrow> string \<Rightarrow> string list" where
  "split_on sep [] = [[]]"
| "split_on sep (c # cs) =
     (if c = sep then [] # split_on sep cs
      else (case split_on sep cs of
              [] \<Rightarrow> [[c]]
            | w # ws \<Rightarrow> (c # w) # ws))"

text \<open>\<open>s.split()\<close>: pieces between runs of whitespace, none of them empty. The first
  argument is the piece being read.\<close>

fun split_ws :: "string \<Rightarrow> string \<Rightarrow> string list" where
  "split_ws w [] = (if w = [] then [] else [w])"
| "split_ws w (c # cs) =
     (if is_space c then (if w = [] then split_ws [] cs else w # split_ws [] cs)
      else split_ws (w @ [c]) cs)"

fun starts_with :: "string \<Rightarrow> string \<Rightarrow> bool" where
  "starts_with [] s = True"
| "starts_with (p # ps) [] = False"
| "starts_with (p # ps) (c # cs) = (p = c \<and> starts_with ps cs)"

text \<open>\<open>pat in s\<close> for strings.\<close>

fun contains :: "string \<Rightarrow> string \<Rightarrow> bool" where
  "contains pat [] = (pat = [])"
| "contains pat (c # cs) = (starts_with pat (c # cs) \<or> contains pat cs)"

definition newline :: char where "newline = CHR 0x0A"

subsection \<open>Dictionaries that keep insertion order\<close>

text \<open>
  \<open>d[k] = v\<close> on an \<open>OrderedDict\<close> (and on a \<open>dict\<close> iterated in insertion order): an
  existing key keeps its place and gets the new value, a new key goes to the end.
\<close>

fun setitem :: "'k \<Rightarrow> 'v \<Rightarrow> ('k \<times> 'v) list \<Rightarrow> ('k \<times> 'v) list" where
  "setitem k v [] = [(k, v)]"
| "setitem k v ((k', v') # kvs) =
     (if k' = k then (k, v) # kvs else (k', v') # setitem k v kvs)"

text \<open>Mutating the object stored under key \<open>k\<close>.\<close>

fun modify :: "'k \<Rightarrow> ('v \<Rightarrow> 'v) \<Rightarrow> ('k \<times> 'v) list \<Rightarrow> ('k \<times> 'v) list" where
  "modify k f [] = []"
| "modify k f ((k', v') # kvs) =
     (if k' = k then (k', f v') # kvs else (k', v') # modify k f kvs)"

subsection \<open>The environment\<close>

text \<open>
  What the collection reads from outside: the output of the compute-apps query, the output
  of \<open>ps\<close> for a list of pids (either call may raise), the host name, the clock and the
  process locale (whatever \<open>setlocale\<close> has installed when a library call reads it).
\<close>

record ('t, 'l) env =
  smi_compute_apps :: "error + string"
  ps_call :: "int list \<Rightarrow> error + string"
  node :: string
  now :: 't
  process_locale :: 'l

subsection \<open>running_processes\<close>

definition nth_opt :: "'a list \<Rightarrow> nat \<Rightarrow> 'a option" where
  "nth_opt xs i = (if i < length xs then Some (xs ! i) else None)"

text \<open>The dict of one compute-app row: \<open>zip\<close> stops at the shorter of the column names
  and the comma-separated values.\<close>

definition process_entry_of_line :: "string \<Rightarrow> process_entry" where
  "process_entry_of_line line =
     (let query_results = map strip (split_on (CHR '','') line)
      in \<lparr>gpu_uuid = nth_opt query_results 0, pid = nth_opt query_results 1,
          used_memory = nth_opt query_results 2, user = None, comm = None\<rparr>)"

definition collect_process_entries :: "string \<Rightarrow> process_entry list" where
  "collect_process_entries smi_output =
     map process_entry_of_line (filter (\<lambda>line. line \<noteq> []) (split_on newline smi_output))"

text \<open>\<open>pid_map\<close>: pid to \<open>None\<close> or to the pair \<open>(user, comm)\<close>.\<close>

type_synonym pid_map = "(int \<times> (string \<times> string) option) list"

fun init_pid_map :: "pid_map \<Rightarrow> process_entry list \<Rightarrow> error + pid_map" where
  "init_pid_map m [] = Inr m"
| "init_pid_map m (e # es) =
     and_then (getitem ''pid'' (pid e)) (\<lambda>s.
     and_then (int_of s) (\<lambda>n.
       init_pid_map (setitem n None m) es))"

text \<open>The loop over the lines of the \<open>ps\<close> output.\<close>

fun read_ps_lines :: "pid_map \<Rightarrow> string list \<Rightarrow> error + pid_map" where
  "read_ps_lines m [] = Inr m"
| "read_ps_lines m (line # lines) =
     (if line = [] \<or> contains ''PID'' line then read_ps_lines m lines
      else (case take 3 (split_ws [] line) of
              [p, u, c] \<Rightarrow>
                and_then (int_of p) (\<lambda>n. read_ps_lines (setitem n (Some (u, c)) m) lines)
            | _ \<Rightarrow> Inl ValueError))"

definition map_pids :: "('t, 'l) env \<Rightarrow> pid_map \<Rightarrow> error + pid_map" where
  "map_pids world m =
     (if m \<noteq> []
      then and_then (ps_call world (map fst m)) (\<lambda>out.
             read_ps_lines m (split_on newline (strip out)))
      else Inr m)"

text \<open>
  Step 3 iterates over a copy of \<open>process_entries\<close> while it removes from, and updates
  objects of, the list itself. Objects are kept in a store \<open>objs\<close> and named by their
  position in it; \<open>cur\<close> is the list \<open>process_entries\<close> (of references). \<open>list.remove(x)\<close>
  drops the first element that is equal to \<open>x\<close> and raises \<open>ValueError\<close> if there is none.
\<close>

fun remove_first :: "('a \<Rightarrow> bool) \<Rightarrow> 'a list \<Rightarrow> 'a list option" where
  "remove_first P [] = None"
| "remove_first P (x # xs) =
     (if P x then Some xs else map_option ((#) x) (remove_first P xs))"

fun add_owner_info ::
  "pid_map \<Rightarrow> process_entry list \<Rightarrow> nat list \<Rightarrow> nat list \<Rightarrow> error + process_entry list" where
  "add_owner_info m objs cur [] = Inr (map ((!) objs) cur)"
| "add_owner_info m objs cur (i # rest) =
     and_then (getitem ''pid'' (pid (objs ! i))) (\<lambda>s.
     and_then (int_of s) (\<lambda>n.
       (case map_of m n of
          None \<Rightarrow> Inl (KeyError s)
        | Some None \<Rightarrow>
            (case remove_first (\<lambda>j. objs ! j = objs ! i) cur of
               None \<Rightarrow> Inl ValueError
             | Some cur' \<Rightarrow> add_owner_info m objs cur' rest)
        | Some (Some (u, c)) \<Rightarrow>
            add_owner_info m (objs[i := (objs ! i)\<lparr>user := Some u, comm := Some c\<rparr>]) cur rest)))"

definition running_processes :: "('t, 'l) env \<Rightarrow> error + process_entry list" where
  "running_processes world =
     and_then (smi_compute_apps world) (\<lambda>smi_output.
       (let process_entries = collect_process_entries smi_output
        in and_then (init_pid_map [] process_entries) (\<lambda>m0.
           and_then (map_pids world m0) (\<lambda>m.
             add_owner_info m process_entries
               [0 ..< length process_entries] [0 ..< length process_entries]))))"

subsection \<open>Construction\<close>

record 't GPUStatCollection =
  gpus :: "(string \<times> GPUStat) list"
  hostname :: string
  query_time :: 't

definition add_process :: "process_entry \<Rightarrow> GPUStat \<Rightarrow> GPUStat" where
  "add_process p g = g\<lparr>processes := processes g @ [p]\<rparr>"

text \<open>The loop \<open>for g in gpu_list: self.gpus[g.uuid] = g\<close>.\<close>

fun insert_gpus :: "(string \<times> GPUStat) list \<Rightarrow> GPUStat list \<Rightarrow> error + (string \<times> GPUStat) list" where
  "insert_gpus d [] = Inr d"
| "insert_gpus d (g # gs) =
     and_then (getitem ''uuid'' (uuid (entry g))) (\<lambda>k. insert_gpus (setitem k g d) gs)"

text \<open>
  The loop of \<open>update_process_information\<close>. The local variable \<open>g\<close> refers to an object of
  \<open>self.gpus\<close>, named here by its key; it is \<open>None\<close> while unbound. The \<open>try\<close> assigns \<open>g\<close>
  when the lookup succeeds; a \<open>KeyError\<close> (from \<open>p['gpu_uuid']\<close> or from the lookup in
  \<open>self.gpus\<close>) is passed over and leaves \<open>g\<close> as it was. Then \<open>g.add_process(p)\<close> runs in
  either case.
\<close>

fun attach_processes ::
  "(string \<times> GPUStat) list \<Rightarrow> string option \<Rightarrow> process_entry list \<Rightarrow>
   error + (string \<times> GPUStat) list" where
  "attach_processes d g [] = Inr d"
| "attach_processes d g (p # ps) =
     (let g' = (case gpu_uuid p of
                  None \<Rightarrow> g
                | Some k \<Rightarrow> (case map_of d k of None \<Rightarrow> g | Some _ \<Rightarrow> Some k))
      in case g' of
           None \<Rightarrow> Inl UnboundLocalError
         | Some k \<Rightarrow> attach_processes (modify k (add_process p) d) g' ps)"

definition update_process_information ::
  "('t, 'l) env \<Rightarrow> (string \<times> GPUStat) list \<Rightarrow> error + (string \<times> GPUStat) list" where
  "update_process_information world d =
     and_then (running_processes world) (\<lambda>ps. attach_processes d None ps)"

text \<open>\<open>GPUStatCollection.__init__\<close>.\<close>

definition init :: "('t, 'l) env \<Rightarrow> GPUStat list \<Rightarrow> error + 't GPUStatCollection" where
  "init world gpu_list =
     and_then (insert_gpus [] gpu_list) (\<lambda>d.
     and_then (update_process_information world d) (\<lambda>d'.
       Inr \<lparr>gpus = d', hostname = node world, query_time = now world\<rparr>))"

text \<open>\<open>__iter__\<close>: the values, in the order of the keys.\<close>

definition iter :: "'t GPUStatCollection \<Rightarrow> GPUStat list" where
  "iter self = map snd (gpus self)"

subsection \<open>print_formatted\<close>

text \<open>
  \<open>template % mapping\<close> for the fragment the header needs: literal text, \<open>%%\<close>, and
  \<open>%(key)s\<close> with the key read up to the next closing parenthesis. A \<open>%\<close> at the end of
  the string or a key that is never closed is Python's \<open>ValueError\<close>; every other
  conversion (and a key that itself holds an opening parenthesis) lies outside the fragment
  and is reported as \<open>FormatError\<close> as well. Text is produced from left to right, so the
  first failure is the leftmost one.
\<close>

function percent_format :: "(string \<Rightarrow> error + string) \<Rightarrow> string \<Rightarrow> error + string" where
  "percent_format d [] = Inr []"
| "percent_format d (c # cs) =
     (if c \<noteq> CHR ''%'' then and_then (percent_format d cs) (\<lambda>r. Inr (c # r))
      else (case cs of
              [] \<Rightarrow> Inl FormatError
            | c2 # cs2 \<Rightarrow>
                if c2 = CHR ''%'' then and_then (percent_format d cs2) (\<lambda>r. Inr (CHR ''%'' # r))
                else if c2 = CHR ''(''
                then (let key = takeWhile (\<lambda>x. x \<noteq> CHR '')'') cs2
                      in case dropWhile (\<lambda>x. x \<noteq> CHR '')'') cs2 of
                           close # conv # rest \<Rightarrow>
                             if conv = CHR ''s'' \<and> CHR ''('' \<notin> set key
                             then and_then (d key) (\<lambda>v.
                                  and_then (percent_format d rest) (\<lambda>r. Inr (v @ r)))
                             else Inl FormatError
                         | _ \<Rightarrow> Inl FormatError)
                else Inl FormatError))"
  by pat_completeness auto
termination
proof (relation "measure (\<lambda>(d, s). length s)")
  show "wf (measure (\<lambda>(d :: string \<Rightarrow> error + string, s :: string). length s))"
    by simp
next
  fix d :: "string \<Rightarrow> error + string" and c :: char and cs :: string
  show "((d, cs), (d, c # cs)) \<in> measure (\<lambda>(d, s). length s)"
    by simp
next
  fix d :: "string \<Rightarrow> error + string" and c c2 :: char and cs cs2 :: string
  assume "cs = c2 # cs2"
  then show "((d, cs2), (d, c # cs)) \<in> measure (\<lambda>(d, s). length s)"
    by simp
next
  fix d :: "string \<Rightarrow> error + string" and c c2 close conv :: char
    and cs cs2 key tl1 rest :: string
  assume cs: "cs = c2 # cs2"
    and dw: "dropWhile (\<lambda>x. x \<noteq> CHR '')'') cs2 = close # tl1" and tl1: "tl1 = conv # rest"
  have "length (dropWhile (\<lambda>x. x \<noteq> CHR '')'') cs2) \<le> length cs2"
    by (rule length_dropWhile_le)
  with dw tl1 have "length rest < length cs2" by simp
  with cs show "((d, rest), (d, c # cs)) \<in> measure (\<lambda>(d, s). length s)"
    by simp
qed

text \<open>The colour attributes of \<open>ANSIColors.__dict__\<close>; any other key is a \<open>KeyError\<close> here.\<close>

definition ANSIColors_dict :: "string \<Rightarrow> error + string" where
  "ANSIColors_dict key =
     (case map_of
        [(''RESET'', RESET), (''WHITE'', WHITE), (''RED'', RED), (''GREEN'', GREEN),
         (''YELLOW'', YELLOW), (''BLUE'', BLUE), (''MAGENTA'', MAGENTA), (''CYAN'', CYAN),
         (''GRAY'', GRAY), (''BOLD_RED'', BOLD_RED), (''BOLD_GREEN'', BOLD_GREEN),
         (''BOLD_YELLOW'', BOLD_YELLOW)] key of
        None \<Rightarrow> Inl (KeyError key)
      | Some v \<Rightarrow> Inr v)"

text \<open>\<open>defaultdict(str)\<close>: every key gives the empty string.\<close>

definition defaultdict_str :: "string \<Rightarrow> error + string" where
  "defaultdict_str key = Inr []"

text \<open>The header: \<open>str.format\<close> puts the host name and the time string into the template
  first, and only then \<open>%\<close> fills in the colours.\<close>

definition header_msg :: "string \<Rightarrow> string \<Rightarrow> bool \<Rightarrow> error + string" where
  "header_msg host timestr no_color =
     percent_format (if no_color then defaultdict_str else ANSIColors_dict)
       (''%(WHITE)s'' @ host @ ''%(RESET)s  '' @ timestr)"

text \<open>\<open>[len(g.entry['name']) for g in self]\<close>.\<close>

fun name_lengths :: "GPUStat list \<Rightarrow> error + nat list" where
  "name_lengths [] = Inr []"
| "name_lengths (g # gs) =
     and_then (getitem ''name'' (name (entry g))) (\<lambda>n.
     and_then (name_lengths gs) (\<lambda>ns. Inr (length n # ns)))"

text \<open>
  Output is a list of writes, in order, each to \<open>sys.stdout\<close> (the header, by \<open>print\<close>) or to
  the stream \<open>fp\<close> given by the caller. An exception ends the output where it is raised;
  what was written before stays written.
\<close>

datatype stream = Stdout | Fp

fun print_body ::
  "bool \<Rightarrow> bool \<Rightarrow> bool \<Rightarrow> bool \<Rightarrow> nat \<Rightarrow> GPUStat list \<Rightarrow> (stream \<times> string) list \<times> error option" where
  "print_body no_color show_cmd show_user show_pid gpuname_width [] = ([], None)"
| "print_body no_color show_cmd show_user show_pid gpuname_width (g # gs) =
     (case print_to g (\<not> no_color) show_cmd show_user show_pid gpuname_width of
        Inl e \<Rightarrow> ([], Some e)
      | Inr reps \<Rightarrow>
          (case print_body no_color show_cmd show_user show_pid gpuname_width gs of
             (ws, r) \<Rightarrow> ((Fp, reps) # (Fp, [newline]) # ws, r)))"

text \<open>
  \<open>GPUStatCollection.print_formatted\<close>. Two library calls read the process locale that is
  in force when the method runs: \<open>locale.nl_langinfo(locale.D_T_FMT)\<close> for the format
  string, and \<open>query_time.strftime\<close>, which takes the names of days and months (and
  whatever else a directive needs) from the locale. Both are parameters here, each a
  function of the locale it reads.
\<close>

definition print_formatted ::
  "('l \<Rightarrow> string) \<Rightarrow> ('l \<Rightarrow> 't \<Rightarrow> string \<Rightarrow> string) \<Rightarrow> ('t, 'l) env \<Rightarrow>
   't GPUStatCollection \<Rightarrow>
   bool \<Rightarrow> bool \<Rightarrow> bool \<Rightarrow> bool \<Rightarrow> (stream \<times> string) list \<times> error option" where
  "print_formatted nl_langinfo strftime world self no_color show_cmd show_user show_pid =
     (let time_format = nl_langinfo (process_locale world)
      in case header_msg (hostname self)
                (strftime (process_locale world) (query_time self) time_format) no_color of
           Inl e \<Rightarrow> ([], Some e)
         | Inr header \<Rightarrow>
             (case name_lengths (iter self) of
                Inl e \<Rightarrow> ([(Stdout, header @ [newline])], Some e)
              | Inr lens \<Rightarrow>
                  (case print_body no_color show_cmd show_user show_pid
                          (foldr max lens 16) (iter self) of
                     (ws, r) \<Rightarrow> ((Stdout, header @ [newline]) # ws, r))))"

text \<open>All the text written, whatever the stream.\<close>

definition written :: "(stream \<times> string) list \<times> error option \<Rightarrow> string" where
  "written out = concat (map snd (fst out))"

text \<open>
  A locale and a \<open>strftime\<close> for worked examples. The time is the broken-down time that
  \<open>datetime.strftime\<close> hands to the C library (\<open>tm_wday\<close> counts from Monday, as Python
  does); the locale holds its date/time format and its abbreviated day names (from Sunday)
  and month names. The directives are those of the format of the C locale, \<open>%a %b %e
  %H:%M:%S %Y\<close>, and \<open>%d\<close>, \<open>%m\<close>, \<open>%T\<close>, \<open>%%\<close>; any other directive is copied as it stands.
\<close>

record struct_time =
  tm_year :: nat
  tm_mon :: nat
  tm_mday :: nat
  tm_hour :: nat
  tm_min :: nat
  tm_sec :: nat
  tm_wday :: nat

record lc_time =
  D_T_FMT :: string
  ABDAY :: "string list"
  ABMON :: "string list"

definition digit_char :: "nat \<Rightarrow> char" where
  "digit_char n = char_of (48 + n mod 10)"

definition two_digits :: "nat \<Rightarrow> string" where
  "two_digits n = [digit_char (n div 10), digit_char n]"

definition four_digits :: "nat \<Rightarrow> string" where
  "four_digits n = [digit_char (n div 1000), digit_char (n div 100), digit_char (n div 10),
                    digit_char n]"

definition locale_name :: "string list \<Rightarrow> nat \<Rightarrow> string" where
  "locale_name names i = (if i < length names then names ! i else [])"

definition directive :: "lc_time \<Rightarrow> struct_time \<Rightarrow> char \<Rightarrow> string" where
  "directive l t c =
     (if c = CHR ''a'' then locale_name (ABDAY l) ((tm_wday t + 1) mod 7)
      else if c = CHR ''b'' then locale_name (ABMON l) (tm_mon t - 1)
      else if c = CHR ''e'' then rjust 2 (dropWhile (\<lambda>x. x = CHR ''0'') (two_digits (tm_mday t)))
      else if c = CHR ''d'' then two_digits (tm_mday t)
      else if c = CHR ''m'' then two_digits (tm_mon t)
      else if c = CHR ''H'' then two_digits (tm_hour t)
      else if c = CHR ''M'' then two_digits (tm_min t)
      else if c = CHR ''S'' then two_digits (tm_sec t)
      else if c = CHR ''T''
        then two_digits (tm_hour t) @ '':'' @ two_digits (tm_min t) @ '':'' @ two_digits (tm_sec t)
      else if c = CHR ''Y'' then four_digits (tm_year t)
      else if c = CHR ''%'' then ''%''
      else [CHR ''%'', c])"

fun strftime_lc :: "lc_time \<Rightarrow> struct_time \<Rightarrow> string \<Rightarrow> string" where
  "strftime_lc l t [] = []"
| "strftime_lc l t [c] = [c]"
| "strftime_lc l t (c # c2 # cs) =
     (if c \<noteq> CHR ''%'' then c # strftime_lc l t (c2 # cs)
      else directive l t c2 @ strftime_lc l t cs)"

section \<open>The command line (cli.py)\<close>

text \<open>
  The result of \<open>parser.parse_args\<close>. \<open>options\<close> are the attributes that stay in \<open>vars(args)\<close>;
  \<open>show_all\<close> and \<open>interval\<close> are the two that \<open>main\<close> deletes or passes separately.
\<close>

record options =
  force_color :: bool
  no_color :: bool
  show_cmd :: bool
  show_full_cmd :: bool
  show_user :: bool
  show_pid :: bool
  show_fan_speed :: bool
  show_codec :: string
  show_power :: "string option"
  json :: bool
  show_header :: bool
  gpuname_width :: "nat option"
  debug :: bool
  no_processes :: bool

record args = options +
  show_all :: bool
  interval :: "real option"

text \<open>
  What the program does, seen from outside: the query of the devices (\<open>new_query\<close>, with
  the debug flag), text on standard error, the traceback, the two renderers of the
  collection (with the options passed on, and whether the in-place line terminator is
  given), the terminal control strings, and sleeping.
\<close>

datatype 'c event =
    Query bool
  | WriteStderr string
  | PrintTraceback
  | PrintJson 'c
  | PrintFormatted 'c options bool
  | MoveCursor
  | ClearEos
  | Sleep real

text \<open>How a call ends: it returns, \<open>sys.exit(code)\<close>, or the query's exception again.\<close>

datatype ending = Return | SystemExit int | Reraise

text \<open>
  \<open>print_gpustat\<close>: \<open>query\<close> is the result of \<open>GPUStatCollection.new_query\<close> (\<open>None\<close> when it
  raises), \<open>traceback_ok\<close> says whether \<open>traceback.print_exc\<close> succeeds, \<open>eol_char\<close> whether the
  caller passes the in-place terminator.
\<close>

definition print_gpustat ::
  "'c option \<Rightarrow> bool \<Rightarrow> options \<Rightarrow> bool \<Rightarrow> 'c event list \<times> ending" where
  "print_gpustat query traceback_ok kwargs eol_char =
     (case query of
        None \<Rightarrow>
          ([Query (debug kwargs),
            WriteStderr (''Error on querying NVIDIA devices. Use --debug flag for details'' @
                         [newline])] @
           (if debug kwargs then [PrintTraceback] else []),
           if debug kwargs \<and> \<not> traceback_ok then Reraise else SystemExit 1)
      | Some gpu_stats \<Rightarrow>
          ([Query (debug kwargs),
            if json kwargs then PrintJson gpu_stats
            else PrintFormatted gpu_stats kwargs eol_char],
           Return))"

text \<open>
  One pass of the watch loop as the environment shows it: a \<open>KeyboardInterrupt\<close> (taken
  here as the pass begins), or the clock at the start, the result of the query, whether the
  traceback can be printed, and the clock after rendering.
\<close>

datatype 'c tick = KeyboardInterrupt | Tick real "'c option" bool real

text \<open>
  \<open>loop_gpustat\<close> over the passes the environment supplies. The loop has no exit of its
  own: the result is \<open>None\<close> when the passes are used up and the loop is still running,
  \<open>Some (Inl 0)\<close> for \<open>return 0\<close>, and \<open>Some (Inr e)\<close> when \<open>print_gpustat\<close> leaves by \<open>e\<close>.
\<close>

fun loop_gpustat ::
  "real \<Rightarrow> options \<Rightarrow> 'c tick list \<Rightarrow> 'c event list \<times> (int + ending) option" where
  "loop_gpustat ivl kwargs [] = ([], None)"
| "loop_gpustat ivl kwargs (KeyboardInterrupt # ticks) = ([], Some (Inl 0))"
| "loop_gpustat ivl kwargs (Tick query_start query traceback_ok query_end # ticks) =
     (case print_gpustat query traceback_ok kwargs True of
        (evs, Return) \<Rightarrow>
          (let query_duration = query_end - query_start;
               sleep_duration = ivl - query_duration;
               pass = [MoveCursor] @ evs @ [ClearEos] @
                      (if sleep_duration > 0 then [Sleep sleep_duration] else [])
           in case loop_gpustat ivl kwargs ticks of (evs', r) \<Rightarrow> (pass @ evs', r))
      | (evs, e) \<Rightarrow> ([MoveCursor] @ evs, Some (Inr e)))"

text \<open>
  \<open>main\<close> after \<open>parse_args\<close>. The environment gives the query result of the single-shot path
  and the passes of the watch path. The result is the events and how \<open>main\<close> ends (\<open>None\<close>:
  the watch loop is still running).
\<close>

definition main ::
  "args \<Rightarrow> 'c option \<Rightarrow> bool \<Rightarrow> 'c tick list \<Rightarrow> 'c event list \<times> (int + ending) option" where
  "main parsed query traceback_ok ticks =
     (let a = (if show_all parsed
               then parsed\<lparr>show_cmd := True, show_user := True, show_pid := True,
                          show_fan_speed := True, show_codec := ''enc,dec'',
                          show_power := Some ''draw,limit''\<rparr>
               else parsed);
          ivl = (case interval a of None \<Rightarrow> 1.0 | Some x \<Rightarrow> x)
      in if ivl > 0
         then (let ivl' = max 0.1 ivl
               in if json a
                  then ([WriteStderr
                           (''Error: --json and --interval/-i can't be used together.'' @
                            [newline])],
                        Some (Inr (SystemExit 1)))
                  else loop_gpustat ivl' (options.truncate a) ticks)
         else (case print_gpustat query traceback_ok (options.truncate a) False of
                 (evs, e) \<Rightarrow> (evs, Some (Inr e))))"

section \<open>Worked inputs\<close>

text \<open>The device of the rendering scenarios, a process for it, and the colour dict of a
  call without colours.\<close>

definition scenario_A :: GPUStat where
  "scenario_A =
     \<lparr>entry = \<lparr>index = Some ''0'', uuid = None, name = Some ''GPU0'',
               temperature_gpu = Some ''45'', utilization_gpu = Some ''10'',
               memory_used = Some ''100'', memory_total = Some ''8000''\<rparr>,
      processes = []\<rparr>"

definition scenario_B_process :: process_entry where
  "scenario_B_process =
     \<lparr>gpu_uuid = None, pid = Some ''123'', used_memory = Some ''50'',
      user = Some ''alice'', comm = None\<rparr>"

definition scenario_C :: "string \<Rightarrow> GPUStat" where
  "scenario_C temp = scenario_A\<lparr>entry := (entry scenario_A)\<lparr>temperature_gpu := Some temp\<rparr>\<rparr>"

definition no_colors :: colors where
  "no_colors = \<lparr>C0 = [], C1 = [], CName = [], CTemp = [], CMemU = [], CMemT = [],
                 CMemP = [], CUser = [], CUtil = []\<rparr>"

text \<open>A device with a uuid, two locales that share the date/time format and differ in
  their names, two times, snapshots, and three environments: two that differ in everything
  but the locale, and one whose second process row names a device \<open>GPU-B\<close>.\<close>

definition device :: "string \<Rightarrow> GPUStat" where
  "device u = scenario_A\<lparr>entry := (entry scenario_A)\<lparr>uuid := Some u\<rparr>\<rparr>"

definition locale_C :: lc_time where
  "locale_C =
     \<lparr>D_T_FMT = ''%a %b %e %H:%M:%S %Y'',
      ABDAY = [''Sun'', ''Mon'', ''Tue'', ''Wed'', ''Thu'', ''Fri'', ''Sat''],
      ABMON = [''Jan'', ''Feb'', ''Mar'', ''Apr'', ''May'', ''Jun'', ''Jul'', ''Aug'', ''Sep'',
               ''Oct'', ''Nov'', ''Dec'']\<rparr>"

definition locale_it_names :: lc_time where
  "locale_it_names =
     \<lparr>D_T_FMT = ''%a %b %e %H:%M:%S %Y'',
      ABDAY = [''dom'', ''lun'', ''mar'', ''mer'', ''gio'', ''ven'', ''sab''],
      ABMON = [''gen'', ''feb'', ''mar'', ''apr'', ''mag'', ''giu'', ''lug'', ''ago'', ''set'',
               ''ott'', ''nov'', ''dic'']\<rparr>"

definition tuesday_noon :: struct_time where
  "tuesday_noon = \<lparr>tm_year = 2020, tm_mon = 12, tm_mday = 15, tm_hour = 12, tm_min = 30,
                    tm_sec = 5, tm_wday = 1\<rparr>"

definition friday_night :: struct_time where
  "friday_night = \<lparr>tm_year = 2021, tm_mon = 1, tm_mday = 1, tm_hour = 23, tm_min = 59,
                    tm_sec = 59, tm_wday = 4\<rparr>"

definition snapshot_1 :: "struct_time GPUStatCollection" where
  "snapshot_1 = \<lparr>gpus = [(''GPU-A'', device ''GPU-A'')], hostname = ''host'',
                  query_time = tuesday_noon\<rparr>"

definition snapshot_2 :: "struct_time GPUStatCollection" where
  "snapshot_2 = \<lparr>gpus = [(''GPU-A'', device ''GPU-A''), (''GPU-B'', device ''GPU-B'')],
                  hostname = ''host'', query_time = tuesday_noon\<rparr>"

text \<open>The snapshot of one device on a host whose name holds an escape sequence.\<close>

definition snapshot_esc :: "struct_time GPUStatCollection" where
  "snapshot_esc = snapshot_1\<lparr>hostname := ESC # ''[1mhost''\<rparr>"

definition world_1 :: "(struct_time, lc_time) env" where
  "world_1 = \<lparr>smi_compute_apps = Inr [], ps_call = (\<lambda>pids. Inr []), node = ''host'',
               now = tuesday_noon, process_locale = locale_C\<rparr>"

definition world_2 :: "(struct_time, lc_time) env" where
  "world_2 = \<lparr>smi_compute_apps = Inl CalledProcessError,
               ps_call = (\<lambda>pids. Inl CalledProcessError),
               node = ''other'', now = friday_night, process_locale = locale_C\<rparr>"

definition world_orphan :: "(struct_time, lc_time) env" where
  "world_orphan =
     \<lparr>smi_compute_apps = Inr (''GPU-A, 100, 50'' @ [newline] @ ''GPU-B, 200, 60'' @ [newline]),
      ps_call = (\<lambda>pids. Inr (''  PID USER     COMMAND'' @ [newline] @
                              ''  100 alice    python'' @ [newline] @
                              ''  200 bob      caffe'' @ [newline])),
      node = ''host'', now = tuesday_noon, process_locale = locale_C\<rparr>"



text \<open>Parsed arguments of \<open>gpustat --json --interval 2\<close>.\<close>

definition parsed_json_watch :: args where
  "parsed_json_watch =
     \<lparr>force_color = False, no_color = False, show_cmd = False, show_full_cmd = False,
      show_user = False, show_pid = False, show_fan_speed = False, show_codec = [],
      show_power = None, json = True, show_header = True, gpuname_width = None,
      debug = False, no_processes = False, show_all = False, interval = Some 2\<rparr>"

section \<open>Notions used in the statements\<close>

text \<open>The elements of a list in the order of their first occurrence.\<close>

fun first_occurrences :: "'a list \<Rightarrow> 'a list" where
  "first_occurrences [] = []"
| "first_occurrences (x # xs) = x # filter (\<lambda>y. y \<noteq> x) (first_occurrences xs)"



text \<open>Text without the escape character: a field (an absent one has no text), the
  fields of a process that are printed, the fields of a device that are printed.\<close>

definition plain :: "string option \<Rightarrow> bool" where
  "plain field = (case field of None \<Rightarrow> True | Some s \<Rightarrow> ESC \<notin> set s)"

definition plain_process :: "process_entry \<Rightarrow> bool" where
  "plain_process p = (plain (user p) \<and> plain (comm p) \<and> plain (pid p) \<and> plain (used_memory p))"

definition plain_gpu :: "GPUStat \<Rightarrow> bool" where
  "plain_gpu g =
     (plain (index (entry g)) \<and> plain (name (entry g)) \<and> plain (temperature_gpu (entry g)) \<and>
      plain (utilization_gpu (entry g)) \<and> plain (memory_used (entry g)) \<and>
      plain (memory_total (entry g)) \<and> list_all plain_process (processes g))"

section \<open>Properties\<close>

subsection \<open>Basic facts\<close>

lemma and_then_Inr_iff: "and_then m f = Inr y \<longleftrightarrow> (\<exists>x. m = Inr x \<and> f x = Inr y)"
  by (cases m) simp_all

lemma getitem_Inr_iff: "getitem k v = Inr x \<longleftrightarrow> v = Some x"
  by (simp add: getitem_def split: option.splits)

lemma getitem_Some: "getitem k (Some x) = Inr x"
  by (simp add: getitem_def)

lemma int_of_Inr_iff: "int_of s = Inr n \<longleftrightarrow> py_int s = Some n"
  by (simp add: int_of_def split: option.splits)

lemma append_processes_prefix:
  "append_processes cs sc su sp reps ps = Inr out \<Longrightarrow> \<exists>rest. out = reps @ rest"
proof (induction ps arbitrary: reps)
  case Nil
  then show ?case by simp
next
  case (Cons p ps)
  from Cons.prems obtain r where
    "append_processes cs sc su sp (reps @ '' '' @ r) ps = Inr out"
    by (auto simp: and_then_Inr_iff)
  from Cons.IH [OF this] show ?case by auto
qed

subsection \<open>The device line\<close>

text \<open>
  C3, as the code has it. The entry \<open>{index: "0", name: "GPU0", temperature.gpu: "45",
  utilization.gpu: "10", memory.used: "100", memory.total: "8000"}\<close> with no processes,
  without colours and with a name width of 16 is written as the line below: the two memory
  figures are right-aligned in five columns each (\<open>{entry[memory.used]:>5}\<close>), and nothing
  follows the closing \<open>|\<close>.
\<close>

theorem scenario_A_line:
  "print_to scenario_A False False False False 16 =
     Inr ''[0] GPU0             | 45'C,  10 % |   100 /  8000 MB |''"
  by code_simp

text \<open>The line of C3 with the memory figures not padded is not what is written.\<close>

theorem scenario_A_line_unpadded_counterexample:
  "print_to scenario_A False False False False 16 \<noteq>
     Inr ''[0] GPU0             | 45'C,  10 % | 100 / 8000 MB |''"
  by code_simp

text \<open>
  C4. Whenever a device is rendered with colours, the line starts with the index and the
  name, followed by the temperature token in bold red when the temperature is at least 50
  and in plain red otherwise, and by the utilization token in bold green when the
  utilization is at least 30 and in plain green otherwise. The two reds and the two greens
  are different escape sequences.
\<close>

theorem print_to_colour_policy:
  assumes "print_to self True sc su sp w = Inr line"
  shows "(\<exists>idx nm ts us t u rest.
           index (entry self) = Some idx \<and> name (entry self) = Some nm \<and>
           temperature_gpu (entry self) = Some ts \<and> py_int ts = Some t \<and>
           utilization_gpu (entry self) = Some us \<and> py_int us = Some u \<and>
           line = CYAN @ ''['' @ idx @ '']'' @ RESET @ '' '' @
                  BLUE @ ljust w nm @ RESET @ '' |'' @
                  (if 50 \<le> t then BOLD_RED else RED) @ rjust 3 ts @ [CHR 0x27] @ ''C'' @
                  RESET @ '', '' @
                  (if 30 \<le> u then BOLD_GREEN else GREEN) @ rjust 3 us @ '' %'' @
                  RESET @ rest) \<and>
         BOLD_RED \<noteq> RED \<and> BOLD_GREEN \<noteq> GREEN"
proof -
  from assms obtain cs idx nm ts us used total where
    cs: "color_settings (entry self) True = Inr cs" and
    f: "index (entry self) = Some idx" "name (entry self) = Some nm"
       "temperature_gpu (entry self) = Some ts" "utilization_gpu (entry self) = Some us" and
    ap: "append_processes cs sc su sp
         (C1 cs @ ''['' @ idx @ '']'' @ C0 cs @ '' '' @
          CName cs @ ljust w nm @ C0 cs @ '' |'' @
          CTemp cs @ rjust 3 ts @ [CHR 0x27] @ ''C'' @ C0 cs @ '', '' @
          CUtil cs @ rjust 3 us @ '' %'' @ C0 cs @ '' | '' @
          C1 cs @ CMemU cs @ rjust 5 used @ C0 cs @ '' / '' @
          CMemT cs @ rjust 5 total @ C0 cs @ '' MB'' @
          '' |'')
         (processes self) = Inr line"
    unfolding print_to_def and_then_Inr_iff getitem_Inr_iff by blast
  from cs f obtain t u where
    tu: "py_int ts = Some t" "py_int us = Some u" and
    cs_eq: "cs = \<lparr>C0 = RESET, C1 = CYAN, CName = BLUE,
                  CTemp = (if t < 50 then RED else BOLD_RED),
                  CMemU = BOLD_YELLOW, CMemT = YELLOW, CMemP = YELLOW, CUser = GRAY,
                  CUtil = (if u < 30 then GREEN else BOLD_GREEN)\<rparr>"
    by (auto simp: color_settings_def and_then_Inr_iff getitem_Inr_iff int_of_Inr_iff)
  from append_processes_prefix [OF ap] obtain rest0 where
    "line = (C1 cs @ ''['' @ idx @ '']'' @ C0 cs @ '' '' @
          CName cs @ ljust w nm @ C0 cs @ '' |'' @
          CTemp cs @ rjust 3 ts @ [CHR 0x27] @ ''C'' @ C0 cs @ '', '' @
          CUtil cs @ rjust 3 us @ '' %'' @ C0 cs @ '' | '' @
          C1 cs @ CMemU cs @ rjust 5 used @ C0 cs @ '' / '' @
          CMemT cs @ rjust 5 total @ C0 cs @ '' MB'' @
          '' |'') @ rest0" by blast
  then have "line = CYAN @ ''['' @ idx @ '']'' @ RESET @ '' '' @
                  BLUE @ ljust w nm @ RESET @ '' |'' @
                  (if 50 \<le> t then BOLD_RED else RED) @ rjust 3 ts @ [CHR 0x27] @ ''C'' @
                  RESET @ '', '' @
                  (if 30 \<le> u then BOLD_GREEN else GREEN) @ rjust 3 us @ '' %'' @
                  RESET @
                  ('' | '' @ CYAN @ BOLD_YELLOW @ rjust 5 used @ RESET @ '' / '' @
                   YELLOW @ rjust 5 total @ RESET @ '' MB'' @ '' |'' @ rest0)"
    by (simp add: cs_eq not_less)
  with f tu have "\<exists>idx nm ts us t u rest.
           index (entry self) = Some idx \<and> name (entry self) = Some nm \<and>
           temperature_gpu (entry self) = Some ts \<and> py_int ts = Some t \<and>
           utilization_gpu (entry self) = Some us \<and> py_int us = Some u \<and>
           line = CYAN @ ''['' @ idx @ '']'' @ RESET @ '' '' @
                  BLUE @ ljust w nm @ RESET @ '' |'' @
                  (if 50 \<le> t then BOLD_RED else RED) @ rjust 3 ts @ [CHR 0x27] @ ''C'' @
                  RESET @ '', '' @
                  (if 30 \<le> u then BOLD_GREEN else GREEN) @ rjust 3 us @ '' %'' @
                  RESET @ rest"
    by blast
  moreover have "BOLD_RED \<noteq> RED \<and> BOLD_GREEN \<noteq> GREEN"
    by (simp add: BOLD_RED_def RED_def BOLD_GREEN_def GREEN_def)
  ultimately show ?thesis by blast
qed

text \<open>The device of the scenarios at 65 degrees has a bold red temperature token, at 30
  degrees a plain red one.\<close>

theorem print_to_colour_policy_witness:
  "(\<exists>rest. print_to (scenario_C ''65'') True False False False 16 =
      Inr (CYAN @ ''[0]'' @ RESET @ '' '' @ BLUE @ ljust 16 ''GPU0'' @ RESET @ '' |'' @
           BOLD_RED @ '' 65'' @ [CHR 0x27] @ ''C'' @ RESET @ '', '' @
           GREEN @ '' 10'' @ '' %'' @ RESET @ rest)) \<and>
   (\<exists>rest. print_to (scenario_C ''30'') True False False False 16 =
      Inr (CYAN @ ''[0]'' @ RESET @ '' '' @ BLUE @ ljust 16 ''GPU0'' @ RESET @ '' |'' @
           RED @ '' 30'' @ [CHR 0x27] @ ''C'' @ RESET @ '', '' @
           GREEN @ '' 10'' @ '' %'' @ RESET @ rest))"
proof -
  have i65: "py_int ''65'' = Some 65" and i30: "py_int ''30'' = Some 30"
    and i10: "py_int ''10'' = Some 10"
    by code_simp+
  have r: "rjust 3 ''65'' = '' 65''" "rjust 3 ''30'' = '' 30''" "rjust 3 ''10'' = '' 10''"
    by code_simp+
  have "\<exists>line. print_to (scenario_C ''65'') True False False False 16 = Inr line"
    by (simp add: print_to_def color_settings_def getitem_def int_of_def i65 i10
        scenario_C_def scenario_A_def)
  then obtain l65 where
    h65: "print_to (scenario_C ''65'') True False False False 16 = Inr l65" ..
  have "\<exists>line. print_to (scenario_C ''30'') True False False False 16 = Inr line"
    by (simp add: print_to_def color_settings_def getitem_def int_of_def i30 i10
        scenario_C_def scenario_A_def)
  then obtain l30 where
    h30: "print_to (scenario_C ''30'') True False False False 16 = Inr l30" ..
  from print_to_colour_policy [OF h65] h65
  have a: "\<exists>rest. print_to (scenario_C ''65'') True False False False 16 =
      Inr (CYAN @ ''[0]'' @ RESET @ '' '' @ BLUE @ ljust 16 ''GPU0'' @ RESET @ '' |'' @
           BOLD_RED @ '' 65'' @ [CHR 0x27] @ ''C'' @ RESET @ '', '' @
           GREEN @ '' 10'' @ '' %'' @ RESET @ rest)"
    by (auto simp: scenario_C_def scenario_A_def i65 i10 r)
  from print_to_colour_policy [OF h30] h30
  have b: "\<exists>rest. print_to (scenario_C ''30'') True False False False 16 =
      Inr (CYAN @ ''[0]'' @ RESET @ '' '' @ BLUE @ ljust 16 ''GPU0'' @ RESET @ '' |'' @
           RED @ '' 30'' @ [CHR 0x27] @ ''C'' @ RESET @ '', '' @
           GREEN @ '' 10'' @ '' %'' @ RESET @ rest)"
    by (auto simp: scenario_C_def scenario_A_def i30 i10 r)
  from a b show ?thesis by blast
qed

subsection \<open>The process token\<close>

text \<open>
  C6, as the code has it. For a process with a user, a pid and a memory figure the token
  is: the user, left out exactly when show-cmd is set and show-user is not; then, exactly
  when show-cmd is set, the command (the \<open>comm\<close> field, or the pid when there is none),
  with a colon before it only when the text so far is not empty; then \<open>/pid\<close> exactly when
  show-pid is set; then always the memory in parentheses.
\<close>

theorem process_repr_token:
  assumes "user p = Some u" and "pid p = Some pd" and "used_memory p = Some m"
  shows "process_repr cs sc su sp p =
           Inr ((if sc \<and> \<not> su then [] else CUser cs @ u @ C0 cs) @
                (if sc
                 then (if (sc \<and> \<not> su) \<or> CUser cs @ u @ C0 cs = [] then [] else '':'') @
                      C1 cs @ (case comm p of Some c \<Rightarrow> c | None \<Rightarrow> pd) @ C0 cs
                 else []) @
                (if sp then ''/'' @ pd else []) @
                ''('' @ CMemP cs @ m @ ''M'' @ C0 cs @ '')'')"
  using assms by (simp add: process_repr_def getitem_Some)

text \<open>The process \<open>{pid: 123, user: "alice", used_memory: 50}\<close> with show-user and
  show-pid, without colours.\<close>

theorem process_repr_token_witness:
  "process_repr no_colors False True True scenario_B_process = Inr ''alice/123(50M)''"
  using process_repr_token [of scenario_B_process "''alice''" "''123''" "''50''"
      no_colors False True True]
  by (simp add: scenario_B_process_def no_colors_def)

text \<open>With show-cmd set and show-user not set the command stands first in the token, with
  no colon before it.\<close>

theorem process_repr_colon_counterexample:
  "process_repr no_colors True False False (scenario_B_process\<lparr>comm := Some ''python''\<rparr>)
     = Inr ''python(50M)'' \<and>
   process_repr no_colors True False False (scenario_B_process\<lparr>comm := Some ''python''\<rparr>)
     \<noteq> Inr '':python(50M)''"
  by code_simp

text \<open>The device line of the scenario with that process attached.\<close>

lemma scenario_B_line:
  "print_to (scenario_A\<lparr>processes := [scenario_B_process]\<rparr>) False False True True 16 =
     Inr (''[0] GPU0             | 45'C,  10 % |   100 /  8000 MB |'' @ '' alice/123(50M)'')"
  by code_simp

subsection \<open>Processes without an owner\<close>














subsection \<open>Construction of the collection\<close>

lemma set_first_occurrences: "set (first_occurrences xs) = set xs"
  by (induction xs) auto

lemma distinct_first_occurrences: "distinct (first_occurrences xs)"
  by (induction xs) (auto simp: set_first_occurrences)

lemma keys_setitem:
  "map fst (setitem k v d) = (if k \<in> set (map fst d) then map fst d else map fst d @ [k])"
  by (induction d) (force split: if_splits)+

lemma keys_modify: "map fst (modify k f d) = map fst d"
  by (induction d) auto

lemma insert_gpus_keys:
  "insert_gpus d gs = Inr d' \<Longrightarrow>
   (\<forall>g \<in> set gs. uuid (entry g) \<noteq> None) \<and>
   map fst d' = map fst d @
     filter (\<lambda>k. k \<notin> set (map fst d)) (first_occurrences (map (\<lambda>g. the (uuid (entry g))) gs))"
proof (induction gs arbitrary: d)
  case Nil
  then show ?case by simp
next
  case (Cons g gs)
  from Cons.prems obtain k where k: "uuid (entry g) = Some k"
    and r: "insert_gpus (setitem k g d) gs = Inr d'"
    by (auto simp: and_then_Inr_iff getitem_Inr_iff)
  from Cons.IH [OF r] have a: "\<forall>g \<in> set gs. uuid (entry g) \<noteq> None"
    and b: "map fst d' = map fst (setitem k g d) @
     filter (\<lambda>x. x \<notin> set (map fst (setitem k g d)))
       (first_occurrences (map (\<lambda>g. the (uuid (entry g))) gs))"
    by blast+
  have "filter (\<lambda>x. x \<notin> set (map fst d) \<and> x \<noteq> k) xs =
        filter (\<lambda>x. x \<notin> set (map fst d)) (filter (\<lambda>y. y \<noteq> k) xs)" for xs
    by (induction xs) auto
  moreover have "k \<in> set (map fst d) \<Longrightarrow>
        filter (\<lambda>x. x \<notin> set (map fst d)) xs =
        filter (\<lambda>x. x \<notin> set (map fst d)) (filter (\<lambda>y. y \<noteq> k) xs)" for xs
    by (induction xs) auto
  ultimately show ?case using a b k
    by (auto simp: keys_setitem)
qed

lemma distinct_insert_gpus:
  "insert_gpus d gs = Inr d' \<Longrightarrow> distinct (map fst d) \<Longrightarrow> distinct (map fst d')"
proof (induction gs arbitrary: d)
  case Nil
  then show ?case by simp
next
  case (Cons g gs)
  from Cons.prems obtain k where r: "insert_gpus (setitem k g d) gs = Inr d'"
    by (auto simp: and_then_Inr_iff)
  from Cons.prems have "distinct (map fst (setitem k g d))"
    by (simp add: keys_setitem)
  from Cons.IH [OF r this] show ?case .
qed

text \<open>Each key holds a device with that uuid, taken from the list.\<close>

lemma setitem_values:
  "(k', v') \<in> set (setitem k v d) \<Longrightarrow> (k', v') = (k, v) \<or> (k', v') \<in> set d"
  by (induction d) (auto split: if_splits)

lemma insert_gpus_values:
  "insert_gpus d gs = Inr d' \<Longrightarrow> (k, v) \<in> set d' \<Longrightarrow>
   (k, v) \<in> set d \<or> (v \<in> set gs \<and> uuid (entry v) = Some k)"
proof (induction gs arbitrary: d)
  case Nil
  then show ?case by simp
next
  case (Cons g gs)
  from Cons.prems obtain k0 where k0: "uuid (entry g) = Some k0"
    and r: "insert_gpus (setitem k0 g d) gs = Inr d'"
    by (auto simp: and_then_Inr_iff getitem_Inr_iff)
  from Cons.IH [OF r Cons.prems(2)] k0 setitem_values [of k v k0 g d]
  show ?case by auto
qed

lemma insert_gpus_distinct_input:
  "insert_gpus d gs = Inr d' \<Longrightarrow>
   distinct (map fst d @ map (\<lambda>g. the (uuid (entry g))) gs) \<Longrightarrow>
   map snd d' = map snd d @ gs"
proof (induction gs arbitrary: d)
  case Nil
  then show ?case by simp
next
  case (Cons g gs)
  from Cons.prems obtain k where k: "uuid (entry g) = Some k"
    and r: "insert_gpus (setitem k g d) gs = Inr d'"
    by (auto simp: and_then_Inr_iff getitem_Inr_iff)
  have new: "k \<notin> set (map fst d)" using Cons.prems(2) k by auto
  have s: "setitem k g d = d @ [(k, g)]" using new
    by (induction d) auto
  have "distinct (map fst (setitem k g d) @ map (\<lambda>g. the (uuid (entry g))) gs)"
    using Cons.prems(2) k by (simp add: s)
  from Cons.IH [OF r this] show ?case by (simp add: s)
qed

lemma modify_entries:
  "map (\<lambda>x. entry (snd x)) (modify k0 (add_process p) d) = map (\<lambda>x. entry (snd x)) d"
  by (induction d) (auto simp: add_process_def)

lemma attach_processes_keys:
  "attach_processes d g ps = Inr d' \<Longrightarrow> map fst d' = map fst d"
proof (induction ps arbitrary: d g)
  case Nil
  then show ?case by simp
next
  case (Cons p ps)
  from Cons.prems obtain k g' where
    "attach_processes (modify k (add_process p) d) g' ps = Inr d'"
    by (auto simp: Let_def split: option.splits)
  from Cons.IH [OF this] show ?case by (simp add: keys_modify)
qed

lemma attach_processes_entries:
  "attach_processes d g ps = Inr d' \<Longrightarrow>
   map (\<lambda>x. entry (snd x)) d' = map (\<lambda>x. entry (snd x)) d"
proof (induction ps arbitrary: d g)
  case Nil
  then show ?case by simp
next
  case (Cons p ps)
  from Cons.prems obtain k g' where
    "attach_processes (modify k (add_process p) d) g' ps = Inr d'"
    by (auto simp: Let_def split: option.splits)
  from Cons.IH [OF this] show ?case by (simp add: modify_entries)
qed

lemma same_keys_and_entries:
  assumes k: "map fst d' = map fst d"
    and e: "map (\<lambda>x. entry (snd x)) d' = map (\<lambda>x. entry (snd x)) d"
    and m: "(k0, g) \<in> set d'"
  shows "\<exists>g0. (k0, g0) \<in> set d \<and> entry g0 = entry g"
proof -
  from m obtain i where i: "i < length d'" and di: "d' ! i = (k0, g)"
    by (auto simp: in_set_conv_nth)
  from k have len: "length d' = length d" by (rule map_eq_imp_length_eq)
  have "fst (d ! i) = fst (d' ! i)"
    using k i len by (metis nth_map)
  moreover have "entry (snd (d ! i)) = entry (snd (d' ! i))"
    using e i len by (metis (mono_tags, lifting) nth_map)
  moreover have "d ! i \<in> set d" using i len by simp
  ultimately have "(k0, snd (d ! i)) \<in> set d \<and> entry (snd (d ! i)) = entry g"
    using di by (metis fst_conv snd_conv prod.collapse)
  then show ?thesis by blast
qed

text \<open>
  C7. In every collection that \<open>__init__\<close> builds, the keys of \<open>gpus\<close> are pairwise
  different and stand in the order in which the uuids first occur in the device list;
  every device of the list has a uuid; each key holds a device of the list with that
  uuid; iteration yields the values in key order; and when the uuids of the list are
  pairwise different, iteration yields the devices of the list in list order.
\<close>

theorem snapshot_keys:
  assumes "init world gpu_list = Inr c"
  shows "distinct (map fst (gpus c)) \<and>
         map fst (gpus c) = first_occurrences (map (\<lambda>g. the (uuid (entry g))) gpu_list) \<and>
         (\<forall>g \<in> set gpu_list. uuid (entry g) \<noteq> None) \<and>
         (\<forall>(k, g) \<in> set (gpus c). uuid (entry g) = Some k \<and> entry g \<in> entry ` set gpu_list) \<and>
         iter c = map snd (gpus c) \<and>
         (distinct (map (\<lambda>g. uuid (entry g)) gpu_list) \<longrightarrow>
            map entry (iter c) = map entry gpu_list)"
proof -
  from assms obtain d d' where d: "insert_gpus [] gpu_list = Inr d"
    and u: "update_process_information world d = Inr d'"
    and c: "c = \<lparr>gpus = d', hostname = node world, query_time = now world\<rparr>"
    by (auto simp: init_def and_then_Inr_iff)
  from u obtain ps where at: "attach_processes d None ps = Inr d'"
    by (auto simp: update_process_information_def and_then_Inr_iff)
  note keys = attach_processes_keys [OF at]
  note ents = attach_processes_entries [OF at]
  have some: "\<forall>g \<in> set gpu_list. uuid (entry g) \<noteq> None"
    and kd: "map fst d = first_occurrences (map (\<lambda>g. the (uuid (entry g))) gpu_list)"
    using insert_gpus_keys [OF d] by simp_all
  have dist: "distinct (map fst d)" using distinct_insert_gpus [OF d] by simp
  have vals: "\<forall>(k, g) \<in> set d'. uuid (entry g) = Some k \<and> entry g \<in> entry ` set gpu_list"
  proof (clarify)
    fix k g assume "(k, g) \<in> set d'"
    from same_keys_and_entries [OF keys ents this] obtain g0 where
      g0: "(k, g0) \<in> set d" "entry g0 = entry g" by blast
    from insert_gpus_values [OF d g0(1)] have "g0 \<in> set gpu_list \<and> uuid (entry g0) = Some k"
      by simp
    with g0(2) show "uuid (entry g) = Some k \<and> entry g \<in> entry ` set gpu_list"
      by (metis imageI)
  qed
  have ord: "distinct (map (\<lambda>g. uuid (entry g)) gpu_list) \<longrightarrow>
             map entry (map snd d') = map entry gpu_list"
  proof
    assume di: "distinct (map (\<lambda>g. uuid (entry g)) gpu_list)"
    have "inj_on the (set (map (\<lambda>g. uuid (entry g)) gpu_list))"
    proof (rule inj_onI)
      fix a b :: "string option"
      assume "a \<in> set (map (\<lambda>g. uuid (entry g)) gpu_list)"
        and "b \<in> set (map (\<lambda>g. uuid (entry g)) gpu_list)" and "the a = the b"
      with some have "a \<noteq> None" "b \<noteq> None" "the a = the b" by auto
      then show "a = b" by (cases a; cases b) simp_all
    qed
    with di have "distinct (map the (map (\<lambda>g. uuid (entry g)) gpu_list))"
      by (simp only: distinct_map)
    then have "distinct (map fst [] @ map (\<lambda>g. the (uuid (entry g))) gpu_list)"
      by (simp add: comp_def)
    from insert_gpus_distinct_input [OF d this] have "map snd d = gpu_list" by simp
    then have "map entry gpu_list = map (\<lambda>x. entry (snd x)) d" by auto
    with ents show "map entry (map snd d') = map entry gpu_list" by (simp add: comp_def)
  qed
  from dist keys kd some vals ord show ?thesis
    by (simp add: c iter_def)
qed

text \<open>Three devices, the third repeating the uuid of the first, and the first two alone;
  no process rows.\<close>

theorem snapshot_keys_witness:
  "init world_1 [device ''GPU-A'', device ''GPU-B'', device ''GPU-A''] = Inr snapshot_2 \<and>
   distinct (map fst (gpus snapshot_2)) \<and>
   map fst (gpus snapshot_2) = [''GPU-A'', ''GPU-B''] \<and>
   init world_1 [device ''GPU-A'', device ''GPU-B''] = Inr snapshot_2 \<and>
   map entry (iter snapshot_2) = map entry [device ''GPU-A'', device ''GPU-B'']"
proof -
  have u: "the (uuid (entry (device k))) = k" for k
    by (simp add: device_def)
  have c: "init world_1 [device ''GPU-A'', device ''GPU-B'', device ''GPU-A''] = Inr snapshot_2"
    by code_simp
  have c': "init world_1 [device ''GPU-A'', device ''GPU-B''] = Inr snapshot_2"
    by code_simp
  from snapshot_keys [OF c] have d: "distinct (map fst (gpus snapshot_2))"
    by blast
  from snapshot_keys [OF c]
  have "map fst (gpus snapshot_2) =
        first_occurrences (map (\<lambda>g. the (uuid (entry g)))
          [device ''GPU-A'', device ''GPU-B'', device ''GPU-A''])"
    by blast
  then have k: "map fst (gpus snapshot_2) = [''GPU-A'', ''GPU-B'']"
    by (simp add: u)
  have "distinct (map (\<lambda>g. uuid (entry g)) [device ''GPU-A'', device ''GPU-B''])"
    by (simp add: device_def)
  with snapshot_keys [OF c']
  have e: "map entry (iter snapshot_2) = map entry [device ''GPU-A'', device ''GPU-B'']"
    by blast
  from c c' d k e show ?thesis by blast
qed

text \<open>
  C1 on the code. The compute-app rows name \<open>GPU-A\<close> and then \<open>GPU-B\<close>; both pids are
  resolved. With \<open>GPU-A\<close> as the only device, the row of \<open>GPU-B\<close> is appended to the
  processes of \<open>GPU-A\<close>: after the \<open>KeyError\<close> is passed over, \<open>g\<close> still refers to the device
  of the row before. With \<open>GPU-C\<close> as the only device, \<open>g\<close> was never assigned and the
  construction ends with \<open>UnboundLocalError\<close>.
\<close>

theorem orphan_process_row_not_dropped:
  "init world_orphan [device ''GPU-A''] =
     Inr \<lparr>gpus =
            [(''GPU-A'',
              (device ''GPU-A'')
                \<lparr>processes :=
                   [\<lparr>gpu_uuid = Some ''GPU-A'', pid = Some ''100'', used_memory = Some ''50'',
                     user = Some ''alice'', comm = Some ''python''\<rparr>,
                    \<lparr>gpu_uuid = Some ''GPU-B'', pid = Some ''200'', used_memory = Some ''60'',
                     user = Some ''bob'', comm = Some ''caffe''\<rparr>]\<rparr>)],
          hostname = ''host'', query_time = tuesday_noon\<rparr> \<and>
   init world_orphan [device ''GPU-C''] = Inl UnboundLocalError"
  by code_simp

subsection \<open>Colours on and off\<close>

lemma percent_format_chars:
  "percent_format d s = Inr r \<Longrightarrow> \<forall>k v. d k = Inr v \<longrightarrow> set v \<subseteq> A \<Longrightarrow>
   set r \<subseteq> set s \<union> A"
proof (induction d s arbitrary: r rule: percent_format.induct)
  case (1 d)
  then show ?case by simp
next
  case (2 d c cs)
  note dA = "2.prems"(2)
  show ?case
  proof (cases "c \<noteq> CHR ''%''")
    case True
    with "2.prems"(1) obtain r' where r': "percent_format d cs = Inr r'" "r = c # r'"
      by (auto simp: and_then_Inr_iff)
    from "2.IH"(1) [OF True r'(1) dA] r'(2) show ?thesis by auto
  next
    case False
    then have c: "c = CHR ''%''" by simp
    show ?thesis
    proof (cases cs)
      case Nil
      with c "2.prems"(1) show ?thesis by simp
    next
      case (Cons c2 cs2)
      show ?thesis
      proof (cases "c2 = CHR ''%''")
        case True
        with c Cons "2.prems"(1) obtain r' where
          r': "percent_format d cs2 = Inr r'" "r = CHR ''%'' # r'"
          by (auto simp: and_then_Inr_iff)
        from "2.IH"(2) [OF False Cons True r'(1) dA] r'(2) c Cons show ?thesis by auto
      next
        case nper: False
        show ?thesis
        proof (cases "c2 = CHR ''(''")
          case False
          with c Cons nper "2.prems"(1) show ?thesis by simp
        next
          case True
          from c Cons nper True "2.prems"(1) obtain close conv rest v r' where
            dw: "dropWhile (\<lambda>x. x \<noteq> CHR '')'') cs2 = close # conv # rest" and
            ok: "conv = CHR ''s'' \<and> CHR ''('' \<notin> set (takeWhile (\<lambda>x. x \<noteq> CHR '')'') cs2)" and
            v: "d (takeWhile (\<lambda>x. x \<noteq> CHR '')'') cs2) = Inr v" and
            r': "percent_format d rest = Inr r'" and r: "r = v @ r'"
            by (auto simp: Let_def and_then_Inr_iff split: list.splits if_splits)
          have "set r' \<subseteq> set rest \<union> A"
            using "2.IH"(3) [OF False Cons nper True refl dw refl ok r' dA] .
          moreover have "set rest \<subseteq> set cs2"
            using set_dropWhileD [of _ "\<lambda>x. x \<noteq> CHR '')''" cs2] dw by auto
          moreover have "set v \<subseteq> A" using dA v by blast
          ultimately show ?thesis using Cons r by auto
        qed
      qed
    qed
  qed
qed

lemma header_msg_plain:
  assumes "header_msg host timestr True = Inr h" and "ESC \<notin> set host" and "ESC \<notin> set timestr"
  shows "ESC \<notin> set h"
proof -
  from assms(1) have "set h \<subseteq> set (''%(WHITE)s'' @ host @ ''%(RESET)s  '' @ timestr)"
    using percent_format_chars [of defaultdict_str "''%(WHITE)s'' @ host @ ''%(RESET)s  '' @ timestr" h "{}"]
    by (simp only: header_msg_def if_True) (simp add: defaultdict_str_def)
  moreover have "ESC \<notin> set (''%(WHITE)s'' @ host @ ''%(RESET)s  '' @ timestr)"
    using assms(2,3) by (simp add: ESC_def)
  ultimately show ?thesis by blast
qed


lemma set_ljust: "set (ljust w s) \<subseteq> insert (CHR '' '') (set s)"
  by (auto simp: ljust_def)

lemma set_rjust: "set (rjust w s) \<subseteq> insert (CHR '' '') (set s)"
  by (auto simp: rjust_def)

lemma ESC_not_space: "ESC \<noteq> CHR '' ''"
  by (simp add: ESC_def)

lemma ESC_ljust: "ESC \<notin> set s \<Longrightarrow> ESC \<notin> set (ljust w s)"
  using set_ljust [of w s] ESC_not_space by auto

lemma ESC_rjust: "ESC \<notin> set s \<Longrightarrow> ESC \<notin> set (rjust w s)"
  using set_rjust [of w s] ESC_not_space by auto

lemma process_repr_plain:
  assumes "process_repr no_colors sc su sp p = Inr r" and "plain_process p"
  shows "ESC \<notin> set r"
  using assms unfolding process_repr_def plain_process_def no_colors_def
  by (auto simp: and_then_Inr_iff getitem_Inr_iff plain_def ESC_def
      split: if_splits option.splits)

lemma append_processes_plain:
  "append_processes no_colors sc su sp reps ps = Inr out \<Longrightarrow> ESC \<notin> set reps \<Longrightarrow>
   list_all plain_process ps \<Longrightarrow> ESC \<notin> set out"
proof (induction ps arbitrary: reps)
  case Nil
  then show ?case by simp
next
  case (Cons p ps)
  from Cons.prems(1) obtain r where r: "process_repr no_colors sc su sp p = Inr r"
    and a: "append_processes no_colors sc su sp (reps @ '' '' @ r) ps = Inr out"
    by (auto simp: and_then_Inr_iff)
  from Cons.prems(3) have "plain_process p" "list_all plain_process ps" by simp_all
  from process_repr_plain [OF r this(1)] Cons.prems(2)
  have "ESC \<notin> set (reps @ '' '' @ r)" by (simp add: ESC_def)
  from Cons.IH [OF a this \<open>list_all plain_process ps\<close>] show ?case .
qed

lemma color_settings_off: "color_settings e False = Inr cs \<Longrightarrow> cs = no_colors"
  by (auto simp: color_settings_def no_colors_def and_then_Inr_iff)

lemma print_to_plain:
  assumes "print_to g False sc su sp w = Inr line" and "plain_gpu g"
  shows "ESC \<notin> set line"
proof -
  from assms(1) obtain cs idx nm ts us used total where
    cs: "color_settings (entry g) False = Inr cs" and
    f: "index (entry g) = Some idx" "name (entry g) = Some nm"
       "temperature_gpu (entry g) = Some ts" "utilization_gpu (entry g) = Some us"
       "memory_used (entry g) = Some used" "memory_total (entry g) = Some total" and
    ap: "append_processes cs sc su sp
         (C1 cs @ ''['' @ idx @ '']'' @ C0 cs @ '' '' @
          CName cs @ ljust w nm @ C0 cs @ '' |'' @
          CTemp cs @ rjust 3 ts @ [CHR 0x27] @ ''C'' @ C0 cs @ '', '' @
          CUtil cs @ rjust 3 us @ '' %'' @ C0 cs @ '' | '' @
          C1 cs @ CMemU cs @ rjust 5 used @ C0 cs @ '' / '' @
          CMemT cs @ rjust 5 total @ C0 cs @ '' MB'' @
          '' |'')
         (processes g) = Inr line"
    unfolding print_to_def and_then_Inr_iff getitem_Inr_iff by blast
  from assms(2) f have e: "ESC \<notin> set idx" "ESC \<notin> set nm" "ESC \<notin> set ts" "ESC \<notin> set us"
    "ESC \<notin> set used" "ESC \<notin> set total" and ps: "list_all plain_process (processes g)"
    by (simp_all add: plain_gpu_def plain_def)
  have cs_eq: "cs = no_colors" using color_settings_off [OF cs] .
  have "ESC \<notin> set (C1 cs @ ''['' @ idx @ '']'' @ C0 cs @ '' '' @
          CName cs @ ljust w nm @ C0 cs @ '' |'' @
          CTemp cs @ rjust 3 ts @ [CHR 0x27] @ ''C'' @ C0 cs @ '', '' @
          CUtil cs @ rjust 3 us @ '' %'' @ C0 cs @ '' | '' @
          C1 cs @ CMemU cs @ rjust 5 used @ C0 cs @ '' / '' @
          CMemT cs @ rjust 5 total @ C0 cs @ '' MB'' @
          '' |'')"
    using e ESC_ljust [of nm w] ESC_rjust [of ts 3] ESC_rjust [of us 3]
      ESC_rjust [of used 5] ESC_rjust [of total 5]
    by (simp add: cs_eq no_colors_def) (simp add: ESC_def)
  from append_processes_plain [OF ap [unfolded cs_eq] this [unfolded cs_eq] ps]
  show ?thesis .
qed

lemma print_body_plain:
  "list_all plain_gpu gs \<Longrightarrow>
   ESC \<notin> set (concat (map snd (fst (print_body True sc su sp w gs))))"
proof (induction gs)
  case Nil
  then show ?case by simp
next
  case (Cons g gs)
  then have g: "plain_gpu g" and IH: "ESC \<notin> set (concat (map snd (fst (print_body True sc su sp w gs))))"
    by simp_all
  show ?case
  proof (cases "print_to g False sc su sp w")
    case (Inl e)
    then show ?thesis by simp
  next
    case (Inr line)
    from print_to_plain [OF Inr g] IH Inr show ?thesis
      by (simp add: newline_def ESC_def split: prod.splits)
  qed
qed


lemma header_msg_coloured:
  "header_msg host timestr False = Inr h \<Longrightarrow> \<exists>r. h = WHITE @ r"
  by (auto simp: header_msg_def ANSIColors_dict_def and_then_Inr_iff)

lemma ESC_in_WHITE: "ESC \<in> set WHITE"
  by (simp add: WHITE_def)

lemma ESC_in_CYAN: "ESC \<in> set CYAN"
  by (simp add: CYAN_def)

lemma print_to_coloured:
  assumes "print_to g True sc su sp w = Inr line"
  shows "ESC \<in> set line"
proof -
  from assms obtain cs reps where
    cs: "color_settings (entry g) True = Inr cs" and
    ap: "append_processes cs sc su sp (C1 cs @ reps) (processes g) = Inr line"
    unfolding print_to_def and_then_Inr_iff getitem_Inr_iff by blast
  from cs have "C1 cs = CYAN"
    by (auto simp: color_settings_def and_then_Inr_iff)
  with append_processes_prefix [OF ap] ESC_in_CYAN show ?thesis by auto
qed

lemma print_body_coloured:
  "w \<in> set (fst (print_body False sc su sp wd gs)) \<Longrightarrow> snd w \<noteq> [newline] \<Longrightarrow>
   ESC \<in> set (snd w)"
proof (induction gs)
  case Nil
  then show ?case by simp
next
  case (Cons g gs)
  show ?case
  proof (cases "print_to g True sc su sp wd")
    case (Inl e)
    with Cons.prems show ?thesis by simp
  next
    case (Inr line)
    with Cons.prems have "w = (Fp, line) \<or> w \<in> set (fst (print_body False sc su sp wd gs))"
      by (auto split: prod.splits)
    with print_to_coloured [OF Inr] Cons.IH Cons.prems(2) show ?thesis by auto
  qed
qed

text \<open>
  C5, as the code has it. Without colours \<open>print_formatted\<close> adds no escape sequence of
  its own: when neither the host name, the formatted time nor any printed field of a
  device or process holds an escape character, nothing that is written holds one, whether
  or not the call ends with an exception. With colours (\<open>no_color\<close> false; the function
  takes no information about the terminal), every write other than a bare line end holds
  an escape character, and so does the output of every call that ends without an
  exception.
\<close>

theorem colour_switch:
  "(ESC \<notin> set (hostname self) \<and> ESC \<notin> set (strftime (process_locale world) (query_time self) (nl_langinfo (process_locale world))) \<and>
    list_all plain_gpu (iter self) \<longrightarrow>
      ESC \<notin> set (written (print_formatted nl_langinfo strftime world self True sc su sp))) \<and>
   (\<forall>w \<in> set (fst (print_formatted nl_langinfo strftime world self False sc su sp)).
      snd w \<noteq> [newline] \<longrightarrow> ESC \<in> set (snd w)) \<and>
   (snd (print_formatted nl_langinfo strftime world self False sc su sp) = None \<longrightarrow>
      ESC \<in> set (written (print_formatted nl_langinfo strftime world self False sc su sp)))"
proof (intro conjI impI ballI)
  assume a: "ESC \<notin> set (hostname self) \<and>
    ESC \<notin> set (strftime (process_locale world) (query_time self) (nl_langinfo (process_locale world))) \<and> list_all plain_gpu (iter self)"
  show "ESC \<notin> set (written (print_formatted nl_langinfo strftime world self True sc su sp))"
  proof (cases "header_msg (hostname self) (strftime (process_locale world) (query_time self) (nl_langinfo (process_locale world))) True")
    case (Inl e)
    then show ?thesis by (simp add: print_formatted_def written_def)
  next
    case (Inr h)
    from header_msg_plain [OF Inr] a have h: "ESC \<notin> set h" by simp
    show ?thesis
    proof (cases "name_lengths (iter self)")
      case (Inl e)
      with Inr h show ?thesis
        by (simp add: print_formatted_def written_def newline_def ESC_def)
    next
      case lens: (Inr lens)
      from a have "list_all plain_gpu (iter self)" by simp
      from print_body_plain [OF this, of sc su sp "foldr max lens 16"] Inr lens h
      show ?thesis
        by (simp add: print_formatted_def written_def newline_def ESC_def split: prod.splits)
    qed
  qed
next
  fix w
  assume w: "w \<in> set (fst (print_formatted nl_langinfo strftime world self False sc su sp))"
    and n: "snd w \<noteq> [newline]"
  show "ESC \<in> set (snd w)"
  proof (cases "header_msg (hostname self) (strftime (process_locale world) (query_time self) (nl_langinfo (process_locale world))) False")
    case (Inl e)
    with w show ?thesis by (simp add: print_formatted_def)
  next
    case (Inr h)
    from header_msg_coloured [OF Inr] ESC_in_WHITE have h: "ESC \<in> set h" by auto
    show ?thesis
    proof (cases "name_lengths (iter self)")
      case (Inl e)
      with Inr h w show ?thesis by (simp add: print_formatted_def)
    next
      case lens: (Inr lens)
      with Inr w have "w = (Stdout, h @ [newline]) \<or>
          w \<in> set (fst (print_body False sc su sp (foldr max lens 16) (iter self)))"
        by (auto simp: print_formatted_def split: prod.splits)
      with h n print_body_coloured [of w sc su sp "foldr max lens 16" "iter self"]
      show ?thesis by auto
    qed
  qed
next
  assume ok: "snd (print_formatted nl_langinfo strftime world self False sc su sp) = None"
  show "ESC \<in> set (written (print_formatted nl_langinfo strftime world self False sc su sp))"
  proof (cases "header_msg (hostname self) (strftime (process_locale world) (query_time self) (nl_langinfo (process_locale world))) False")
    case (Inl e)
    with ok show ?thesis by (simp add: print_formatted_def)
  next
    case (Inr h)
    from header_msg_coloured [OF Inr] ESC_in_WHITE have h: "ESC \<in> set h" by auto
    with Inr show ?thesis
      by (auto simp: print_formatted_def written_def split: sum.splits prod.splits)
  qed
qed

text \<open>The snapshot of one device, with and without colours.\<close>

theorem colour_switch_witness:
  "ESC \<notin> set (written (print_formatted D_T_FMT strftime_lc world_1 snapshot_1
                             True False True True)) \<and>
   ESC \<in> set (written (print_formatted D_T_FMT strftime_lc world_1 snapshot_1
                             False False True True))"
proof -
  have p: "ESC \<notin> set (hostname snapshot_1) \<and>
      ESC \<notin> set (strftime_lc (process_locale world_1) (query_time snapshot_1)
                     (D_T_FMT (process_locale world_1))) \<and>
      list_all plain_gpu (iter snapshot_1)"
    by code_simp
  have ok: "snd (print_formatted D_T_FMT strftime_lc world_1 snapshot_1
                   False False True True) = None"
    by code_simp
  from colour_switch [where self = snapshot_1 and strftime = strftime_lc and world = world_1
      and nl_langinfo = D_T_FMT and sc = False and su = True and sp = True] p ok
  show ?thesis by blast
qed

text \<open>
  The text of the snapshot is copied as it is. A host name that holds an escape sequence
  puts it into the header although colours are off, and the call ends without an
  exception.
\<close>

theorem colour_switch_host_name_counterexample:
  "ESC \<in> set (written (print_formatted D_T_FMT strftime_lc world_1 snapshot_esc
                            True False False False)) \<and>
   snd (print_formatted D_T_FMT strftime_lc world_1 snapshot_esc True False False False) = None"
  by code_simp

subsection \<open>What rendering depends on\<close>

text \<open>
  C10, as the code has it. \<open>print_formatted\<close> reads the process locale when it is called:
  the date/time format, and through \<open>strftime\<close> the names the format asks for. With the
  same process locale, the output for a snapshot and a choice of options is the same in
  any two environments, whatever their clocks, host names and command outputs, and
  whatever the two library functions are.
\<close>

theorem print_formatted_reads_only_the_locale:
  assumes "process_locale w1 = process_locale w2"
  shows "print_formatted nl_langinfo strftime w1 self nc sc su sp =
         print_formatted nl_langinfo strftime w2 self nc sc su sp"
  using assms by (simp add: print_formatted_def)

text \<open>Two environments that agree on the locale only.\<close>

theorem print_formatted_reads_only_the_locale_witness:
  "print_formatted D_T_FMT strftime_lc world_1 snapshot_1 False False True True =
   print_formatted D_T_FMT strftime_lc world_2 snapshot_1 False False True True"
  using print_formatted_reads_only_the_locale [of world_1 world_2]
  by (simp add: world_1_def world_2_def)

text \<open>
  The same snapshot and options under two locales that have the same date/time format and
  different names of days and months: the headers are \<open>host  Tue Dec 15 12:30:05 2020\<close> and
  \<open>host  mar dic 15 12:30:05 2020\<close>.
\<close>

theorem print_formatted_locale_counterexample:
  "fst (print_formatted D_T_FMT strftime_lc world_1 snapshot_1 True False False False) ! 0 =
     (Stdout, ''host  Tue Dec 15 12:30:05 2020'' @ [newline]) \<and>
   fst (print_formatted D_T_FMT strftime_lc (world_1\<lparr>process_locale := locale_it_names\<rparr>)
          snapshot_1 True False False False) ! 0 =
     (Stdout, ''host  mar dic 15 12:30:05 2020'' @ [newline]) \<and>
   print_formatted D_T_FMT strftime_lc (world_1\<lparr>process_locale := locale_it_names\<rparr>)
     snapshot_1 True False False False \<noteq>
   print_formatted D_T_FMT strftime_lc world_1 snapshot_1 True False False False"
  by code_simp

subsection \<open>The command line\<close>

text \<open>
  C8. With \<open>--json\<close> and an interval above zero, \<open>main\<close> writes the usage error to standard
  error and leaves with \<open>sys.exit(1)\<close>; no query is made.
\<close>

theorem json_with_interval_rejected:
  assumes "json parsed" and "interval parsed = Some x" and "0 < x"
  shows "main parsed query tb ticks =
           ([WriteStderr (''Error: --json and --interval/-i can't be used together.'' @ [newline])],
            Some (Inr (SystemExit 1))) \<and>
         (\<forall>d. Query d \<notin> set (fst (main parsed query tb ticks)))"
  using assms by (simp add: main_def Let_def)

text \<open>\<open>--json --interval 2\<close>.\<close>

theorem json_with_interval_rejected_witness:
  "main parsed_json_watch (Some snapshot_1) True [Tick 0 (Some snapshot_1) True 1] =
     ([WriteStderr (''Error: --json and --interval/-i can't be used together.'' @ [newline])],
      Some (Inr (SystemExit 1)))"
  using json_with_interval_rejected [of parsed_json_watch 2 "Some snapshot_1" True
      "[Tick 0 (Some snapshot_1) True 1]"]
  by (simp add: parsed_json_watch_def)

lemma loop_sleeps_positive:
  "Sleep d \<in> set (fst (loop_gpustat ivl kw ticks)) \<Longrightarrow> 0 < d"
proof (induction ivl kw ticks rule: loop_gpustat.induct)
  case (1 ivl kwargs)
  then show ?case by simp
next
  case (2 ivl kwargs ticks)
  then show ?case by simp
next
  case (3 ivl kwargs query_start query traceback_ok query_end ticks)
  then show ?case
    by (auto simp: print_gpustat_def Let_def split: option.splits prod.splits if_splits ending.splits)
qed

text \<open>
  C9. Without \<open>--json\<close> and with an interval \<open>x\<close> above zero, \<open>main\<close> runs the watch loop with
  the interval \<open>max 0.1 x\<close>, which is at least 0.1. Every pass of the loop whose query
  succeeds moves the cursor, queries, renders, clears the rest of the screen and then
  sleeps for \<open>max 0 (interval - (end - start))\<close> when the pass took less than the interval,
  and does not sleep otherwise. No sleep of the run is zero or negative.
\<close>

theorem watch_sleep:
  assumes "\<not> json parsed" and "interval parsed = Some x" and "0 < x"
  shows "main parsed query tb ticks =
           loop_gpustat (max 0.1 x)
             (options.truncate
                (if show_all parsed
                 then parsed\<lparr>show_cmd := True, show_user := True, show_pid := True,
                            show_fan_speed := True, show_codec := ''enc,dec'',
                            show_power := Some ''draw,limit''\<rparr>
                 else parsed)) ticks \<and>
         0.1 \<le> max 0.1 x \<and>
         (\<forall>ivl kw t0 c t1 rest.
            loop_gpustat ivl kw (Tick t0 (Some c) tb t1 # rest) =
              ([MoveCursor, Query (debug kw),
                if json kw then PrintJson c else PrintFormatted c kw True, ClearEos] @
               (if t1 - t0 < ivl then [Sleep (max 0 (ivl - (t1 - t0)))] else []) @
               fst (loop_gpustat ivl kw rest),
               snd (loop_gpustat ivl kw rest))) \<and>
         (\<forall>d. Sleep d \<in> set (fst (main parsed query tb ticks)) \<longrightarrow> 0 < d)"
proof -
  have m: "main parsed query tb ticks =
           loop_gpustat (max 0.1 x)
             (options.truncate
                (if show_all parsed
                 then parsed\<lparr>show_cmd := True, show_user := True, show_pid := True,
                            show_fan_speed := True, show_codec := ''enc,dec'',
                            show_power := Some ''draw,limit''\<rparr>
                 else parsed)) ticks"
    using assms by (simp add: main_def Let_def)
  have p: "\<forall>ivl kw t0 c t1 rest.
            loop_gpustat ivl kw (Tick t0 (Some c) tb t1 # rest) =
              ([MoveCursor, Query (debug kw),
                if json kw then PrintJson c else PrintFormatted c kw True, ClearEos] @
               (if t1 - t0 < ivl then [Sleep (max 0 (ivl - (t1 - t0)))] else []) @
               fst (loop_gpustat ivl kw rest),
               snd (loop_gpustat ivl kw rest))"
    by (simp add: print_gpustat_def Let_def split: prod.splits)
  have s: "\<forall>d. Sleep d \<in> set (fst (main parsed query tb ticks)) \<longrightarrow> 0 < d"
    unfolding m using loop_sleeps_positive by blast
  have f: "0.1 \<le> max 0.1 x" by simp
  from m f p s show ?thesis by blast
qed

text \<open>An interval of 0.05 is raised to 0.1: a pass of 0.04 is followed by a sleep of 0.06, a
  pass of 0.5 by none.\<close>

theorem watch_sleep_witness:
  "main (parsed_json_watch\<lparr>json := False, interval := Some 0.05\<rparr>) (None :: nat option) True
         [Tick 10 (Some 7) True 10.04, Tick 11 (Some 8) True 11.5]
   = ([MoveCursor, Query False,
       PrintFormatted 7 (options.truncate (parsed_json_watch\<lparr>json := False\<rparr>)) True,
       ClearEos, Sleep 0.06,
       MoveCursor, Query False,
       PrintFormatted 8 (options.truncate (parsed_json_watch\<lparr>json := False\<rparr>)) True,
       ClearEos], None)"
proof -
  have a: "\<not> json (parsed_json_watch\<lparr>json := False, interval := Some 0.05\<rparr>)"
    "interval (parsed_json_watch\<lparr>json := False, interval := Some 0.05\<rparr>) = Some 0.05"
    "(0::real) < 0.05"
    by (simp_all add: parsed_json_watch_def)
  have "main (parsed_json_watch\<lparr>json := False, interval := Some 0.05\<rparr>) (None :: nat option)
          True [Tick 10 (Some 7) True 10.04, Tick 11 (Some 8) True 11.5] =
        loop_gpustat (max 0.1 0.05)
          (options.truncate
             (if show_all (parsed_json_watch\<lparr>json := False, interval := Some 0.05\<rparr>)
              then (parsed_json_watch\<lparr>json := False, interval := Some 0.05\<rparr>)
                     \<lparr>show_cmd := True, show_user := True, show_pid := True,
                      show_fan_speed := True, show_codec := ''enc,dec'',
                      show_power := Some ''draw,limit''\<rparr>
              else parsed_json_watch\<lparr>json := False, interval := Some 0.05\<rparr>))
          [Tick 10 (Some 7) True 10.04, Tick 11 (Some 8) True 11.5]"
    by (rule conjunct1 [OF watch_sleep [OF a]])
  also have "\<dots> = ([MoveCursor, Query False,
       PrintFormatted 7 (options.truncate (parsed_json_watch\<lparr>json := False\<rparr>)) True,
       ClearEos, Sleep 0.06,
       MoveCursor, Query False,
       PrintFormatted 8 (options.truncate (parsed_json_watch\<lparr>json := False\<rparr>)) True,
       ClearEos], None)"
    by (simp add: parsed_json_watch_def options.truncate_def print_gpustat_def)
  finally show ?thesis .
qed

end
